theory Spec2Isabelle
  imports Complex_Main
begin

section \<open>Python values\<close>

text \<open>
  The model of \<^verbatim>\<open>SubjectPerformanceModel\<close> (main.py) stores whatever the caller, the
  parameter store or an import file hands it, so parameter values are Python values as
  \<^verbatim>\<open>json.load\<close> produces them. Floats are idealised as exact rationals: rounding,
  infinities and NaN are outside the model. Strings are byte lists (UTF-8).
\<close>

datatype pyval =
    PNone
  | PBool bool
  | PInt int
  | PFloat rat
  | PStr string
  | PList "pyval list"
  | PDict "(string \<times> pyval) list"

datatype py_error =
    KeyError string
  | TypeError string
  | AttributeError string
  | LibraryError string

definition quoted :: "string \<Rightarrow> string" where
  "quoted s = [CHR 0x27] @ s @ [CHR 0x27]"

text \<open>\<^verbatim>\<open>str(e)\<close> of a caught exception (a KeyError prints the repr of its key).\<close>

fun err_str :: "py_error \<Rightarrow> string" where
  "err_str (KeyError k) = quoted k"
| "err_str (TypeError m) = m"
| "err_str (AttributeError m) = m"
| "err_str (LibraryError m) = m"

fun type_name :: "pyval \<Rightarrow> string" where
  "type_name PNone = ''NoneType''"
| "type_name (PBool b) = ''bool''"
| "type_name (PInt i) = ''int''"
| "type_name (PFloat r) = ''float''"
| "type_name (PStr s) = ''str''"
| "type_name (PList xs) = ''list''"
| "type_name (PDict d) = ''dict''"

text \<open>The numeric value of a Python number; \<^verbatim>\<open>bool\<close> is a subclass of \<^verbatim>\<open>int\<close>.\<close>

fun num_of :: "pyval \<Rightarrow> rat option" where
  "num_of (PBool b) = Some (if b then 1 else 0)"
| "num_of (PInt i) = Some (of_int i)"
| "num_of (PFloat r) = Some r"
| "num_of PNone = None"
| "num_of (PStr s) = None"
| "num_of (PList xs) = None"
| "num_of (PDict d) = None"

text \<open>
  Python's \<^verbatim>\<open>==\<close>: numbers compare by value across int, float and bool, lists
  elementwise, dicts as key-value sets (a dict's keys are distinct).
\<close>

fun py_eq :: "pyval \<Rightarrow> pyval \<Rightarrow> bool" where
  "py_eq PNone PNone = True"
| "py_eq (PStr s) (PStr t) = (s = t)"
| "py_eq (PList xs) (PList ys) = list_all2 py_eq xs ys"
| "py_eq (PDict d) (PDict e) =
     (length d = length e \<and>
      list_all (\<lambda>(k, v). case map_of e k of None \<Rightarrow> False | Some w \<Rightarrow> py_eq v w) d)"
| "py_eq a b = (case (num_of a, num_of b) of (Some x, Some y) \<Rightarrow> x = y | _ \<Rightarrow> False)"

subsection \<open>Dictionaries in insertion order\<close>

type_synonym pydict = "(string \<times> pyval) list"

text \<open>\<^verbatim>\<open>d[k] = v\<close>: an existing key keeps its position, a new key goes last.\<close>

fun dict_set :: "pydict \<Rightarrow> string \<Rightarrow> pyval \<Rightarrow> pydict" where
  "dict_set [] k v = [(k, v)]"
| "dict_set ((k', v') # d) k v =
     (if k' = k then (k, v) # d else (k', v') # dict_set d k v)"

text \<open>\<^verbatim>\<open>d[k]\<close> raises KeyError on a missing key.\<close>

definition dict_lookup :: "pydict \<Rightarrow> string \<Rightarrow> py_error + pyval" where
  "dict_lookup d k = (case map_of d k of None \<Rightarrow> Inl (KeyError k) | Some v \<Rightarrow> Inr v)"

definition dict_keys :: "pydict \<Rightarrow> string list" where
  "dict_keys d = map fst d"

section \<open>The performance model\<close>

record model =
  confirmed_parameters :: pydict
  pending_parameters :: pydict
  performance_history :: "rat list"
  time_steps :: "int list"
  current_time :: int

definition param_names :: "string list" where
  "param_names = [''preparedness'', ''teaching'', ''materials'', ''participation'', ''difficulty'']"

text \<open>The object as \<^verbatim>\<open>__init__\<close> builds it before it calls \<^verbatim>\<open>load_parameters\<close>.\<close>

definition init_model :: model where
  "init_model =
     \<lparr> confirmed_parameters = map (\<lambda>k. (k, PInt 50)) param_names,
       pending_parameters = map (\<lambda>k. (k, PInt 50)) param_names,
       performance_history = [],
       time_steps = [],
       current_time = 0 \<rparr>"

subsection \<open>calculate_performance\<close>

definition weights :: "(string \<times> rat) list" where
  "weights =
     [(''preparedness'', 3 / 10), (''teaching'', 3 / 10), (''materials'', 2 / 10),
      (''participation'', 15 / 100), (''difficulty'', - (5 / 100))]"

text \<open>The TypeError of \<^verbatim>\<open>v * 0.3\<close> for a value that is not a number.\<close>

fun mult_error :: "pyval \<Rightarrow> py_error" where
  "mult_error (PStr s) =
     TypeError (''can'' @ [CHR 0x27] @ ''t multiply sequence by non-int of type '' @ quoted ''float'')"
| "mult_error (PList xs) =
     TypeError (''can'' @ [CHR 0x27] @ ''t multiply sequence by non-int of type '' @ quoted ''float'')"
| "mult_error v =
     TypeError (''unsupported operand type(s) for *: '' @ quoted (type_name v) @ '' and '' @
       quoted ''float'')"

text \<open>\<^verbatim>\<open>confirmed[param] * weights[param]\<close>: the weight is looked up, then the product taken.\<close>

definition weighted_term :: "string \<Rightarrow> pyval \<Rightarrow> py_error + rat" where
  "weighted_term param v =
     (case map_of weights param of
        None \<Rightarrow> Inl (KeyError param)
      | Some w \<Rightarrow>
          (case num_of v of
             None \<Rightarrow> Inl (mult_error v)
           | Some x \<Rightarrow> Inr (x * w)))"

text \<open>\<^verbatim>\<open>sum(... for param in self.confirmed_parameters)\<close>, left to right from 0.\<close>

fun weighted_sum :: "pydict \<Rightarrow> rat \<Rightarrow> py_error + rat" where
  "weighted_sum [] acc = Inr acc"
| "weighted_sum ((param, v) # d) acc =
     (case weighted_term param v of
        Inl e \<Rightarrow> Inl e
      | Inr t \<Rightarrow> weighted_sum d (acc + t))"

text \<open>\<^verbatim>\<open>max(0, min(100, score))\<close>.\<close>

definition clamp_score :: "rat \<Rightarrow> rat" where
  "clamp_score score = max 0 (min 100 score)"

text \<open>
  The result is the raised exception or the returned score, paired with the object
  after the call: an exception leaves the object as it was when it was raised.
\<close>

definition calculate_performance :: "model \<Rightarrow> (py_error + rat) \<times> model" where
  "calculate_performance m =
     (case weighted_sum (confirmed_parameters m) 0 of
        Inl e \<Rightarrow> (Inl e, m)
      | Inr raw \<Rightarrow>
          (let score = clamp_score raw in
           (Inr score,
            m\<lparr> performance_history := performance_history m @ [score],
               time_steps := time_steps m @ [current_time m],
               current_time := current_time m + 1 \<rparr>)))"

subsection \<open>The parameter store\<close>

text \<open>
  The file \<^verbatim>\<open>subject_parameters.json\<close>: absent, present but not readable as JSON
  (\<^verbatim>\<open>open\<close> or \<^verbatim>\<open>json.load\<close> raises), or holding a JSON value. How a write to it
  ends is a parameter of the model: \<^verbatim>\<open>json.dump\<close> completes, or it raises after
  \<^verbatim>\<open>open\<close> has truncated the file, or \<^verbatim>\<open>open\<close> itself raises and the file is as
  before. \<^verbatim>\<open>save_parameters\<close> catches either exception.
\<close>

datatype store_file = Absent | Unreadable | Parsed pyval

datatype write_result = Written | Truncated | Refused

record disk =
  store :: store_file
  write_outcome :: write_result

definition save_parameters :: "model \<Rightarrow> disk \<Rightarrow> disk" where
  "save_parameters m d =
     (case write_outcome d of
        Written \<Rightarrow> d\<lparr> store := Parsed (PDict (confirmed_parameters m)) \<rparr>
      | Truncated \<Rightarrow> d\<lparr> store := Unreadable \<rparr>
      | Refused \<Rightarrow> d)"

fun is_prefix :: "string \<Rightarrow> string \<Rightarrow> bool" where
  "is_prefix [] t = True"
| "is_prefix (c # s) [] = False"
| "is_prefix (c # s) (c' # t) = (c = c' \<and> is_prefix s t)"

fun is_substring :: "string \<Rightarrow> string \<Rightarrow> bool" where
  "is_substring s [] = (s = [])"
| "is_substring s (c # t) = (is_prefix s (c # t) \<or> is_substring s t)"

text \<open>\<^verbatim>\<open>param in data\<close> for a string \<open>param\<close>.\<close>

fun py_contains :: "pyval \<Rightarrow> string \<Rightarrow> py_error + bool" where
  "py_contains (PDict d) k = Inr (k \<in> set (map fst d))"
| "py_contains (PList xs) k = Inr (list_ex (\<lambda>x. py_eq x (PStr k)) xs)"
| "py_contains (PStr s) k = Inr (is_substring k s)"
| "py_contains v k =
     Inl (TypeError (''argument of type '' @ quoted (type_name v) @ '' is not iterable''))"

text \<open>\<^verbatim>\<open>data[param]\<close> for a string \<open>param\<close>.\<close>

fun py_index :: "pyval \<Rightarrow> string \<Rightarrow> py_error + pyval" where
  "py_index (PDict d) k = dict_lookup d k"
| "py_index (PList xs) k = Inl (TypeError ''list indices must be integers or slices, not str'')"
| "py_index (PStr s) k = Inl (TypeError (''string indices must be integers, not '' @ quoted ''str''))"
| "py_index v k = Inl (TypeError (quoted (type_name v) @ '' object is not subscriptable''))"

text \<open>
  The loop of \<^verbatim>\<open>load_parameters\<close> over the keys of \<open>confirmed_parameters\<close>; an
  exception stops it and leaves what was assigned before.
\<close>

fun load_loop :: "pyval \<Rightarrow> string list \<Rightarrow> model \<Rightarrow> py_error option \<times> model" where
  "load_loop data [] m = (None, m)"
| "load_loop data (param # ps) m =
     (case py_contains data param of
        Inl e \<Rightarrow> (Some e, m)
      | Inr False \<Rightarrow> load_loop data ps m
      | Inr True \<Rightarrow>
          (case py_index data param of
             Inl e \<Rightarrow> (Some e, m)
           | Inr v \<Rightarrow>
               load_loop data ps
                 (m\<lparr> confirmed_parameters := dict_set (confirmed_parameters m) param v,
                    pending_parameters := dict_set (pending_parameters m) param v \<rparr>)))"

definition load_parameters :: "disk \<Rightarrow> model \<Rightarrow> model" where
  "load_parameters d m =
     (case store d of
        Absent \<Rightarrow> m
      | Unreadable \<Rightarrow> m
      | Parsed data \<Rightarrow> snd (load_loop data (dict_keys (confirmed_parameters m)) m))"

text \<open>\<^verbatim>\<open>SubjectPerformanceModel()\<close>.\<close>

definition new_model :: "disk \<Rightarrow> model" where
  "new_model d = load_parameters d init_model"

subsection \<open>update_pending_parameters\<close>

fun update_pending_loop :: "pydict \<Rightarrow> pydict \<Rightarrow> pydict" where
  "update_pending_loop [] pend = pend"
| "update_pending_loop ((param, v) # ps) pend =
     update_pending_loop ps (if param \<in> set (map fst pend) then dict_set pend param v else pend)"

definition update_pending_parameters :: "pydict \<Rightarrow> model \<Rightarrow> model" where
  "update_pending_parameters params m =
     m\<lparr> pending_parameters := update_pending_loop params (pending_parameters m) \<rparr>"

subsection \<open>confirm_parameters\<close>

text \<open>\<^verbatim>\<open>param.replace('_', ' ')\<close>.\<close>

definition replace_underscore :: "string \<Rightarrow> string" where
  "replace_underscore s = map (\<lambda>c. if c = CHR ''_'' then CHR '' '' else c) s"

text \<open>The arrow U+2192 of the change log, in UTF-8.\<close>

definition arrow :: string where
  "arrow = [CHR 0xE2, CHR 0x86, CHR 0x92]"

text \<open>
  One line of the change log. \<open>fmt\<close> is Python's formatting of a value inside an
  f-string, taken as a parameter.
\<close>

definition change_line :: "(pyval \<Rightarrow> string) \<Rightarrow> string \<Rightarrow> pyval \<Rightarrow> pyval \<Rightarrow> string" where
  "change_line fmt param old_val new_val =
     replace_underscore param @ '': '' @ fmt old_val @ '' '' @ arrow @ '' '' @ fmt new_val"

text \<open>
  The loop of \<^verbatim>\<open>confirm_parameters\<close>: the keys still to visit, the pending dict, and
  \<open>(confirmed_parameters, change_log, changes_made)\<close> so far.
\<close>

fun confirm_loop ::
  "(pyval \<Rightarrow> string) \<Rightarrow> string list \<Rightarrow> pydict \<Rightarrow> pydict \<times> string list \<times> bool \<Rightarrow>
   py_error option \<times> pydict \<times> string list \<times> bool" where
  "confirm_loop fmt [] pend (conf, change_log, changes_made) =
     (None, conf, change_log, changes_made)"
| "confirm_loop fmt (param # ps) pend (conf, change_log, changes_made) =
     (case dict_lookup conf param of
        Inl e \<Rightarrow> (Some e, conf, change_log, changes_made)
      | Inr old_val \<Rightarrow>
          (case dict_lookup pend param of
             Inl e \<Rightarrow> (Some e, conf, change_log, changes_made)
           | Inr new_val \<Rightarrow>
               (if \<not> py_eq old_val new_val
                then confirm_loop fmt ps pend
                       (dict_set conf param new_val,
                        change_log @ [change_line fmt param old_val new_val], True)
                else confirm_loop fmt ps pend (conf, change_log, changes_made))))"

text \<open>\<^verbatim>\<open>"\n".join(lines)\<close>.\<close>

fun join_lines :: "string list \<Rightarrow> string" where
  "join_lines [] = []"
| "join_lines [l] = l"
| "join_lines (l # ls) = l @ [CHR 0x0A] @ join_lines ls"

text \<open>
  The result is the raised exception, or \<open>None\<close> for Python's \<^verbatim>\<open>None\<close> and \<open>Some log\<close>
  for the joined change log, with the object and the disk after the call.
\<close>

definition confirm_parameters ::
  "(pyval \<Rightarrow> string) \<Rightarrow> model \<times> disk \<Rightarrow> (py_error + string option) \<times> (model \<times> disk)" where
  "confirm_parameters fmt md =
     (let m = fst md; d = snd md in
      (case confirm_loop fmt (dict_keys (confirmed_parameters m)) (pending_parameters m)
              (confirmed_parameters m, [], False) of
         (Some e, conf, change_log, changes_made) \<Rightarrow>
           (Inl e, (m\<lparr> confirmed_parameters := conf \<rparr>, d))
       | (None, conf, change_log, changes_made) \<Rightarrow>
           (if changes_made
            then (let m1 = m\<lparr> confirmed_parameters := conf \<rparr>;
                      d1 = save_parameters m1 d
                  in (case calculate_performance m1 of
                        (Inl e, m2) \<Rightarrow> (Inl e, (m2, d1))
                      | (Inr score, m2) \<Rightarrow> (Inr (Some (join_lines change_log)), (m2, d1))))
            else (Inr None, (m\<lparr> confirmed_parameters := conf \<rparr>, d)))))"

subsection \<open>predict_pass_fail\<close>

text \<open>The label, the text colour and the background colour.\<close>

definition predict_pass_fail :: "model \<Rightarrow> string \<times> string \<times> string" where
  "predict_pass_fail m =
     (if performance_history m = [] then (''No data'', ''black'', ''gray'')
      else (let current_score = last (performance_history m) in
            if current_score \<ge> 70 then (''High pass chance'', ''green'', ''#ddffdd'')
            else if current_score \<ge> 60 then (''Likely to pass'', ''darkgreen'', ''#eeffee'')
            else if current_score \<ge> 50 then (''Borderline'', ''blue'', ''#ffffdd'')
            else if current_score \<ge> 40 then (''Risk of failing'', ''orange'', ''#ffeeee'')
            else (''High fail chance'', ''red'', ''#ffdddd'')))"

subsection \<open>predict_trend\<close>










subsection \<open>import_bulk_data\<close>

text \<open>
  What the libraries hand to \<^verbatim>\<open>import_bulk_data\<close> is a parameter of the model.
  \<open>read_csv path\<close> is the outcome of \<^verbatim>\<open>import pandas\<close> and \<^verbatim>\<open>pd.read_csv(path)\<close>,
  \<open>json_load path\<close> that of \<^verbatim>\<open>open(path)\<close> and \<^verbatim>\<open>json.load(f)\<close>: the exception raised
  or the value returned. A data frame is its column names and its rows, each row holding
  one cell per column. A cell is \<open>Numeric r\<close> when \<^verbatim>\<open>pd.to_numeric\<close> converts it to the
  number \<open>r\<close>, and \<open>NonNumeric\<close> when \<^verbatim>\<open>errors='coerce'\<close> turns it into NaN (text, an
  empty or a missing cell).
\<close>

datatype cell = Numeric rat | NonNumeric

record dataframe =
  df_columns :: "string list"
  df_rows :: "(string \<times> cell) list list"

record reader =
  read_csv :: "string \<Rightarrow> py_error + dataframe"
  json_load :: "string \<Rightarrow> py_error + pyval"

text \<open>\<^verbatim>\<open>s.endswith(suffix)\<close>.\<close>

definition endswith :: "string \<Rightarrow> string \<Rightarrow> bool" where
  "endswith s suffix =
     (length suffix \<le> length s \<and> drop (length s - length suffix) s = suffix)"

text \<open>The decimal digits of a natural number, as an f-string prints \<^verbatim>\<open>len(...)\<close>.\<close>

fun str_nat :: "nat \<Rightarrow> string" where
  "str_nat n =
     (if n < 10 then [''0123456789'' ! n]
      else str_nat (n div 10) @ [''0123456789'' ! (n mod 10)])"

declare str_nat.simps [simp del]

text \<open>\<^verbatim>\<open>pd.to_numeric(df[col], errors='coerce').fillna(50)\<close> on one cell.\<close>

fun to_numeric_fillna :: "cell \<Rightarrow> cell" where
  "to_numeric_fillna (Numeric r) = Numeric r"
| "to_numeric_fillna NonNumeric = Numeric 50"

text \<open>
  The loop over \<^verbatim>\<open>self.confirmed_parameters\<close> that converts each of its columns, or adds
  the column with 50 in every row.
\<close>

fun prepare_columns :: "string list \<Rightarrow> dataframe \<Rightarrow> dataframe" where
  "prepare_columns [] df = df"
| "prepare_columns (col # cols) df =
     prepare_columns cols
       (if col \<in> set (df_columns df)
        then df\<lparr> df_rows :=
                  map (map (\<lambda>(c, v). if c = col then (c, to_numeric_fillna v) else (c, v)))
                    (df_rows df) \<rparr>
        else df\<lparr> df_columns := df_columns df @ [col],
                 df_rows := map (\<lambda>row. row @ [(col, Numeric 50)]) (df_rows df) \<rparr>)"

text \<open>
  \<^verbatim>\<open>row.get(key, 50)\<close> on a row of the frame. A cell that the loop above did not
  convert (its column is no key of \<open>confirmed_parameters\<close>) and that is no number is
  text, on which \<^verbatim>\<open>max\<close> raises TypeError; the NaN of a missing cell there is outside
  the model and taken with it.
\<close>

definition row_get :: "(string \<times> cell) list \<Rightarrow> string \<Rightarrow> py_error + pyval" where
  "row_get row key =
     (case map_of row key of
        None \<Rightarrow> Inr (PInt 50)
      | Some (Numeric r) \<Rightarrow> Inr (PFloat r)
      | Some NonNumeric \<Rightarrow>
          Inl (TypeError (quoted ''>'' @ '' not supported between instances of '' @
                 quoted ''int'' @ '' and '' @ quoted ''str'')))"

text \<open>\<^verbatim>\<open>entry.get(key, 50)\<close> on an element of the JSON data.\<close>

fun entry_get :: "pyval \<Rightarrow> string \<Rightarrow> py_error + pyval" where
  "entry_get (PDict d) key = Inr (case map_of d key of None \<Rightarrow> PInt 50 | Some v \<Rightarrow> v)"
| "entry_get v key =
     Inl (AttributeError (quoted (type_name v) @ '' object has no attribute '' @ quoted ''get''))"

text \<open>\<^verbatim>\<open>min(max(v, 0), 100)\<close>: \<^verbatim>\<open>max\<close> keeps \<open>v\<close> unless \<open>0 > v\<close>, \<^verbatim>\<open>min\<close> unless \<open>100 < v\<close>.\<close>

definition clamp_param :: "pyval \<Rightarrow> py_error + pyval" where
  "clamp_param v =
     (case num_of v of
        None \<Rightarrow>
          Inl (TypeError (quoted ''>'' @ '' not supported between instances of '' @
                 quoted ''int'' @ '' and '' @ quoted (type_name v)))
      | Some x \<Rightarrow> Inr (if 0 > x then PInt 0 else if 100 < x then PInt 100 else v))"

text \<open>
  The dict display that builds the new \<open>confirmed_parameters\<close> of a row: the five keys
  in order, the first exception ending it.
\<close>

fun build_params :: "(string \<Rightarrow> py_error + pyval) \<Rightarrow> string list \<Rightarrow> py_error + pydict" where
  "build_params get [] = Inr []"
| "build_params get (key # keys) =
     (case get key of
        Inl e \<Rightarrow> Inl e
      | Inr v \<Rightarrow>
          (case clamp_param v of
             Inl e \<Rightarrow> Inl e
           | Inr c \<Rightarrow>
               (case build_params get keys of
                  Inl e \<Rightarrow> Inl e
                | Inr d \<Rightarrow> Inr ((key, c) # d))))"

text \<open>The loop over the rows; \<open>get row\<close> reads a field of a row.\<close>

fun import_rows ::
  "('r \<Rightarrow> string \<Rightarrow> py_error + pyval) \<Rightarrow> 'r list \<Rightarrow> model \<Rightarrow> py_error option \<times> model" where
  "import_rows get [] m = (None, m)"
| "import_rows get (row # rows) m =
     (case build_params (get row) param_names of
        Inl e \<Rightarrow> (Some e, m)
      | Inr d \<Rightarrow>
          (case calculate_performance (m\<lparr> confirmed_parameters := d \<rparr>) of
             (Inl e, m') \<Rightarrow> (Some e, m')
           | (Inr score, m') \<Rightarrow> import_rows get rows m'))"

text \<open>\<^verbatim>\<open>for entry in data\<close>: what iterating the loaded JSON value yields.\<close>

fun py_iter :: "pyval \<Rightarrow> py_error + pyval list" where
  "py_iter (PList xs) = Inr xs"
| "py_iter (PDict d) = Inr (map (\<lambda>(k, v). PStr k) d)"
| "py_iter (PStr s) = Inr (map (\<lambda>c. PStr [c]) s)"
| "py_iter v = Inl (TypeError (quoted (type_name v) @ '' object is not iterable''))"

definition clear_series :: "model \<Rightarrow> model" where
  "clear_series m = m\<lparr> performance_history := [], time_steps := [], current_time := 0 \<rparr>"

text \<open>The body of the \<^verbatim>\<open>try\<close> up to and including \<^verbatim>\<open>self.save_parameters()\<close>.\<close>

definition import_body ::
  "reader \<Rightarrow> string \<Rightarrow> model \<times> disk \<Rightarrow> py_error option \<times> (model \<times> disk)" where
  "import_body rd data_file md =
     (let m0 = clear_series (fst md); d = snd md in
      if endswith data_file ''.csv'' then
        (case read_csv rd data_file of
           Inl e \<Rightarrow> (Some e, (m0, d))
         | Inr df \<Rightarrow>
             (case import_rows row_get
                     (df_rows (prepare_columns (dict_keys (confirmed_parameters m0)) df)) m0 of
                (Some e, m1) \<Rightarrow> (Some e, (m1, d))
              | (None, m1) \<Rightarrow> (None, (m1, save_parameters m1 d))))
      else if endswith data_file ''.json'' then
        (case json_load rd data_file of
           Inl e \<Rightarrow> (Some e, (m0, d))
         | Inr data \<Rightarrow>
             (case py_iter data of
                Inl e \<Rightarrow> (Some e, (m0, d))
              | Inr entries \<Rightarrow>
                  (case import_rows entry_get entries m0 of
                     (Some e, m1) \<Rightarrow> (Some e, (m1, d))
                   | (None, m1) \<Rightarrow> (None, (m1, save_parameters m1 d)))))
      else (None, (m0, save_parameters m0 d)))"

text \<open>The result pair \<open>(success, message)\<close> with the object and the disk after the call.\<close>

definition import_bulk_data ::
  "reader \<Rightarrow> string \<Rightarrow> model \<times> disk \<Rightarrow> (bool \<times> string) \<times> (model \<times> disk)" where
  "import_bulk_data rd data_file md =
     (case import_body rd data_file md of
        (None, (m, d)) \<Rightarrow>
          ((True, ''Successfully imported '' @ str_nat (length (performance_history m)) @
                  '' records''), (m, d))
      | (Some e, (m, d)) \<Rightarrow> ((False, ''Import failed: '' @ err_str e), (m, d)))"

section \<open>Notions for stating the properties\<close>

text \<open>
  The definitions below are not part of the program. They name what the properties are
  about: the score of a parameter set, the parameter set a row of an import file stands
  for, the keys on which pending and confirmed differ, sequences of operations on the
  model, and the squared error of a line.
\<close>

subsection \<open>Scores and parameter ranges\<close>

text \<open>A parameter value is in range when it is a number in \<open>[0, 100]\<close>.\<close>

definition in_range :: "pyval \<Rightarrow> bool" where
  "in_range v = (case num_of v of None \<Rightarrow> False | Some x \<Rightarrow> 0 \<le> x \<and> x \<le> 100)"

text \<open>
  The score of a parameter set: the weighted sum of its five fields clamped to
  \<open>[0, 100]\<close>, a field that is missing or no number counting 0.
\<close>

definition field_num :: "pydict \<Rightarrow> string \<Rightarrow> rat" where
  "field_num d k = (case map_of d k of None \<Rightarrow> 0 | Some v \<Rightarrow> (case num_of v of None \<Rightarrow> 0 | Some x \<Rightarrow> x))"

definition params_score :: "pydict \<Rightarrow> rat" where
  "params_score d =
     max 0 (min 100
       (3 / 10 * field_num d ''preparedness'' + 3 / 10 * field_num d ''teaching'' +
        2 / 10 * field_num d ''materials'' + 15 / 100 * field_num d ''participation'' +
        (- (5 / 100)) * field_num d ''difficulty''))"

text \<open>One more point on the series.\<close>

definition add_point :: "rat \<Rightarrow> model \<Rightarrow> model" where
  "add_point score m =
     m\<lparr> performance_history := performance_history m @ [score],
        time_steps := time_steps m @ [current_time m],
        current_time := current_time m + 1 \<rparr>"

subsection \<open>Rows of an import file\<close>

text \<open>
  A row is given by the function that reads its fields. \<open>row_ok\<close> says that the dict
  display succeeds on it, \<open>row_params\<close> is the parameter set it then builds.
\<close>

definition row_params :: "(string \<Rightarrow> py_error + pyval) \<Rightarrow> pydict" where
  "row_params g = (case build_params g param_names of Inl e \<Rightarrow> [] | Inr d \<Rightarrow> d)"

definition row_ok :: "(string \<Rightarrow> py_error + pyval) \<Rightarrow> bool" where
  "row_ok g = (case build_params g param_names of Inl e \<Rightarrow> False | Inr d \<Rightarrow> True)"

text \<open>
  Scoring the parameter sets \<open>rows\<close> one after the other: what the import loop does to
  the object when every row is fine.
\<close>

definition replay :: "pydict list \<Rightarrow> model \<Rightarrow> model" where
  "replay rows m =
     m\<lparr> confirmed_parameters := (if rows = [] then confirmed_parameters m else last rows),
        performance_history := performance_history m @ map params_score rows,
        time_steps := time_steps m @ map (\<lambda>i. current_time m + int i) [0..<length rows],
        current_time := current_time m + int (length rows) \<rparr>"

text \<open>Clamping a number to \<open>[0, 100]\<close>; the clamped bounds are the ints 0 and 100.\<close>

definition clamp_value :: "pyval \<Rightarrow> pyval" where
  "clamp_value v =
     (case num_of v of
        None \<Rightarrow> v
      | Some x \<Rightarrow> if x < 0 then PInt 0 else if x > 100 then PInt 100 else v)"









text \<open>
  What \<open>import_bulk_data\<close> iterates over: the exception raised before the loop, or the
  field readers of the rows, none for a path with neither suffix.
\<close>

definition row_readers ::
  "reader \<Rightarrow> string \<Rightarrow> model \<Rightarrow> py_error + (string \<Rightarrow> py_error + pyval) list" where
  "row_readers rd data_file m =
     (if endswith data_file ''.csv'' then
        (case read_csv rd data_file of
           Inl e \<Rightarrow> Inl e
         | Inr df \<Rightarrow>
             Inr (map row_get (df_rows (prepare_columns (dict_keys (confirmed_parameters m)) df))))
      else if endswith data_file ''.json'' then
        (case json_load rd data_file of
           Inl e \<Rightarrow> Inl e
         | Inr data \<Rightarrow> (case py_iter data of Inl e \<Rightarrow> Inl e | Inr entries \<Rightarrow> Inr (map entry_get entries)))
      else Inr [])"

text \<open>
  The first failure of an import, if any: the exception, and the readers of the rows
  before it. Reading the file may fail, with no row done, or the dict display of a row.
\<close>

fun first_failure ::
  "(string \<Rightarrow> py_error + pyval) list \<Rightarrow> (py_error \<times> (string \<Rightarrow> py_error + pyval) list) option" where
  "first_failure [] = None"
| "first_failure (g # gs) =
     (case build_params g param_names of
        Inl e \<Rightarrow> Some (e, [])
      | Inr d \<Rightarrow> map_option (\<lambda>(e, good). (e, g # good)) (first_failure gs))"

definition import_failure ::
  "reader \<Rightarrow> string \<Rightarrow> model \<Rightarrow> (py_error \<times> (string \<Rightarrow> py_error + pyval) list) option" where
  "import_failure rd data_file m =
     (case row_readers rd data_file m of
        Inl e \<Rightarrow> Some (e, [])
      | Inr gs \<Rightarrow> first_failure gs)"

subsection \<open>Pending against confirmed\<close>

text \<open>
  \<open>differs conf pend k\<close>: both dicts have the key \<open>k\<close> and Python's \<^verbatim>\<open>!=\<close> holds of the
  two values. \<open>changed_keys\<close> are the keys of the confirmed parameters, in their order, on
  which pending differs.
\<close>

definition differs :: "pydict \<Rightarrow> pydict \<Rightarrow> string \<Rightarrow> bool" where
  "differs conf pend k =
     (case (map_of conf k, map_of pend k) of
        (Some old_val, Some new_val) \<Rightarrow> \<not> py_eq old_val new_val
      | _ \<Rightarrow> False)"

definition changed_keys :: "model \<Rightarrow> string list" where
  "changed_keys m =
     filter (differs (confirmed_parameters m) (pending_parameters m))
       (dict_keys (confirmed_parameters m))"

text \<open>
  \<open>commit conf pend ks\<close> is \<open>conf\<close> with the value of \<open>pend\<close> at every key of \<open>ks\<close>;
  \<open>log_line\<close> is the line of the change log for a key.
\<close>

definition commit :: "pydict \<Rightarrow> pydict \<Rightarrow> string list \<Rightarrow> pydict" where
  "commit conf pend ks =
     map (\<lambda>(k, old_val). (k, if k \<in> set ks then the (map_of pend k) else old_val)) conf"

definition log_line :: "(pyval \<Rightarrow> string) \<Rightarrow> pydict \<Rightarrow> pydict \<Rightarrow> string \<Rightarrow> string" where
  "log_line fmt conf pend k = change_line fmt k (the (map_of conf k)) (the (map_of pend k))"

text \<open>
  A formatting function for the examples: the decimal digits of an int, as an f-string
  prints it (other values are not printed by it).
\<close>

definition show_param :: "pyval \<Rightarrow> string" where
  "show_param v =
     (case v of
        PInt i \<Rightarrow> (if i < 0 then CHR ''-'' # str_nat (nat (- i)) else str_nat (nat i))
      | _ \<Rightarrow> [])"

subsection \<open>The parameter store\<close>

text \<open>
  \<open>loaded data ks c\<close> is the dict \<open>c\<close> after the keys \<open>ks\<close> have been read from the
  JSON object \<open>data\<close>: a key of \<open>ks\<close> that \<open>data\<close> has takes its value there.
\<close>

definition loaded :: "pydict \<Rightarrow> string list \<Rightarrow> pydict \<Rightarrow> pydict" where
  "loaded data ks c =
     map (\<lambda>(k, old_val). (k, if k \<in> set ks then
        (case map_of data k of None \<Rightarrow> old_val | Some v \<Rightarrow> v) else old_val)) c"

subsection \<open>Sequences of operations\<close>

text \<open>
  The operations on the model and the state after a sequence of them. An operation that
  raises leaves the object as it was when the exception was raised, and the sequence
  goes on from there.
\<close>

datatype operation =
    Update_pending pydict
  | Confirm
  | Calculate
  | Import_bulk reader string

fun apply_operation :: "(pyval \<Rightarrow> string) \<Rightarrow> operation \<Rightarrow> model \<times> disk \<Rightarrow> model \<times> disk" where
  "apply_operation fmt (Update_pending params) md =
     (update_pending_parameters params (fst md), snd md)"
| "apply_operation fmt Confirm md = snd (confirm_parameters fmt md)"
| "apply_operation fmt Calculate md = (snd (calculate_performance (fst md)), snd md)"
| "apply_operation fmt (Import_bulk rd data_file) md = snd (import_bulk_data rd data_file md)"

fun run_operations :: "(pyval \<Rightarrow> string) \<Rightarrow> operation list \<Rightarrow> model \<times> disk \<Rightarrow> model \<times> disk" where
  "run_operations fmt [] md = md"
| "run_operations fmt (op # ops) md = run_operations fmt ops (apply_operation fmt op md)"

text \<open>
  Both parameter sets have exactly the five recognised keys, in the order of
  \<open>param_names\<close>; all their values are in range; an update passes values in range only.
\<close>

definition keys_ok :: "model \<Rightarrow> bool" where
  "keys_ok m =
     (dict_keys (confirmed_parameters m) = param_names \<and>
      dict_keys (pending_parameters m) = param_names)"





text \<open>
  The series as the model keeps it: the time steps are \<open>0, 1, ...\<close>, one per score, and
  the counter is their number.
\<close>

definition series_ok :: "model \<Rightarrow> bool" where
  "series_ok m =
     (time_steps m = map int [0..<length (performance_history m)] \<and>
      current_time m = int (length (performance_history m)))"

subsection \<open>Least squares\<close>



section \<open>Lemmas\<close>

subsection \<open>Scoring and the import loop\<close>

lemma weighted_sum_five:
  assumes "num_of vp = Some p" "num_of vt = Some t" "num_of vm = Some ma"
      "num_of va = Some a" "num_of vd = Some d"
  shows "weighted_sum [(''preparedness'', vp), (''teaching'', vt), (''materials'', vm),
       (''participation'', va), (''difficulty'', vd)] 0 =
     Inr (3 / 10 * p + 3 / 10 * t + 2 / 10 * ma + 15 / 100 * a + (- (5 / 100)) * d)"
  by (simp add: weighted_term_def weights_def assms algebra_simps)

lemma clamp_param_in_range: "clamp_param v = Inr c \<Longrightarrow> in_range c"
  by (auto simp: clamp_param_def in_range_def split: option.splits if_splits)

lemma build_params_keys: "build_params g ks = Inr d \<Longrightarrow> map fst d = ks"
  by (induction ks arbitrary: d) (auto split: sum.splits)

lemma build_params_in_range: "build_params g ks = Inr d \<Longrightarrow> list_all in_range (map snd d)"
  by (induction ks arbitrary: d) (auto split: sum.splits dest: clamp_param_in_range)

lemma in_range_num: "in_range v \<Longrightarrow> \<exists>x. num_of v = Some x"
  by (auto simp: in_range_def split: option.splits)

lemma calculate_performance_params:
  assumes keys: "map fst (confirmed_parameters m) = param_names"
    and nums: "list_all (\<lambda>v. num_of v \<noteq> None) (map snd (confirmed_parameters m))"
  shows "calculate_performance m = (Inr (params_score (confirmed_parameters m)),
           add_point (params_score (confirmed_parameters m)) m)"
proof -
  from keys obtain vp vt vm va vd where conf: "confirmed_parameters m =
      [(''preparedness'', vp), (''teaching'', vt), (''materials'', vm),
       (''participation'', va), (''difficulty'', vd)]"
    by (auto simp: param_names_def map_eq_Cons_conv)
  from nums conf obtain p t ma a d where n: "num_of vp = Some p" "num_of vt = Some t" "num_of vm = Some ma"
      "num_of va = Some a" "num_of vd = Some d"
    by auto
  have ws: "weighted_sum (confirmed_parameters m) 0 =
     Inr (3 / 10 * p + 3 / 10 * t + 2 / 10 * ma + 15 / 100 * a + (- (5 / 100)) * d)"
    unfolding conf by (rule weighted_sum_five [OF n])
  have ps: "params_score (confirmed_parameters m) =
     max 0 (min 100 (3 / 10 * p + 3 / 10 * t + 2 / 10 * ma + 15 / 100 * a + (- (5 / 100)) * d))"
    unfolding conf by (simp add: params_score_def field_num_def n)
  show ?thesis
    by (simp add: calculate_performance_def ws ps clamp_score_def add_point_def Let_def)
qed

lemma replay_Nil: "replay [] m = m"
  by (simp add: replay_def)

lemma upt_shift: "map (\<lambda>i. c + int i) [0..<Suc n] = c # map (\<lambda>i. (c + 1) + int i) [0..<n]"
proof -
  have "[0..<Suc n] = 0 # map Suc [0..<n]"
    by (simp add: upt_conv_Cons map_Suc_upt del: upt_Suc)
  then show ?thesis by (simp add: comp_def del: upt_Suc)
qed

lemma replay_Cons:
  "replay (r # rows) m = replay rows (add_point (params_score r) (m\<lparr> confirmed_parameters := r \<rparr>))"
  by (simp add: replay_def add_point_def upt_shift del: upt_Suc)

lemma build_params_calc:
  assumes "build_params g param_names = Inr d"
  shows "calculate_performance (m\<lparr> confirmed_parameters := d \<rparr>) =
           (Inr (params_score d), add_point (params_score d) (m\<lparr> confirmed_parameters := d \<rparr>))"
proof -
  have k: "map fst (confirmed_parameters (m\<lparr> confirmed_parameters := d \<rparr>)) = param_names"
    using build_params_keys [OF assms] by simp
  have "list_all in_range (map snd d)" by (rule build_params_in_range [OF assms])
  then have n: "list_all (\<lambda>v. num_of v \<noteq> None) (map snd (confirmed_parameters (m\<lparr> confirmed_parameters := d \<rparr>)))"
    by (auto simp: list_all_iff dest: in_range_num)
  show ?thesis
    using calculate_performance_params [OF k n] by simp
qed

lemma import_rows_good:
  "list_all (\<lambda>r. row_ok (get r)) rows \<Longrightarrow>
   import_rows get rows m = (None, replay (map (\<lambda>r. row_params (get r)) rows) m)"
proof (induction rows arbitrary: m)
  case Nil
  then show ?case by (simp add: replay_Nil)
next
  case (Cons r rows)
  from Cons.prems obtain d where d: "build_params (get r) param_names = Inr d"
    by (auto simp: row_ok_def split: sum.splits)
  have rp: "row_params (get r) = d" by (simp add: row_params_def d)
  from Cons.prems have rest: "list_all (\<lambda>r. row_ok (get r)) rows" by simp
  show ?case
    by (simp add: d rp build_params_calc [OF d] Cons.IH [OF rest] replay_Cons)
qed

lemma import_rows_bad:
  assumes good: "list_all (\<lambda>r. row_ok (get r)) good"
    and bad: "build_params (get bad) param_names = Inl e"
  shows "import_rows get (good @ bad # rest) m =
           (Some e, replay (map (\<lambda>r. row_params (get r)) good) m)"
  using good
proof (induction good arbitrary: m)
  case Nil
  then show ?case by (simp add: bad replay_Nil)
next
  case (Cons r rows)
  from Cons.prems obtain d where d: "build_params (get r) param_names = Inr d"
    by (auto simp: row_ok_def split: sum.splits)
  have rp: "row_params (get r) = d" by (simp add: row_params_def d)
  from Cons.prems have rest: "list_all (\<lambda>r. row_ok (get r)) rows" by simp
  show ?case
    by (simp add: d rp build_params_calc [OF d] Cons.IH [OF rest] replay_Cons)
qed



lemma clamp_value_50 [simp]: "clamp_value (PInt 50) = PInt 50"
  by (simp add: clamp_value_def)












lemma import_rows_map: "import_rows get rows m = import_rows (\<lambda>g. g) (map get rows) m"
  by (induction rows arbitrary: m) (auto split: sum.splits prod.splits)

lemma clear_series_confirmed [simp]:
  "confirmed_parameters (clear_series m) = confirmed_parameters m"
  by (simp add: clear_series_def)

lemma import_body_readers:
  "import_body rd f (m, d) =
     (case row_readers rd f m of
        Inl e \<Rightarrow> (Some e, (clear_series m, d))
      | Inr gs \<Rightarrow>
          (case import_rows (\<lambda>g. g) gs (clear_series m) of
             (Some e, m1) \<Rightarrow> (Some e, (m1, d))
           | (None, m1) \<Rightarrow> (None, (m1, save_parameters m1 d))))"
  by (simp add: import_body_def row_readers_def Let_def import_rows_map [symmetric]
      split: sum.splits)

lemma replay_clear:
  "replay rows (clear_series m) =
     m\<lparr> confirmed_parameters := (if rows = [] then confirmed_parameters m else last rows),
        performance_history := map params_score rows,
        time_steps := map int [0..<length rows],
        current_time := int (length rows) \<rparr>"
  by (simp add: replay_def clear_series_def)

lemma import_bulk_data_good:
  assumes "row_readers rd f m = Inr gs" and "list_all row_ok gs"
  shows "import_bulk_data rd f (m, d) =
     ((True, ''Successfully imported '' @ str_nat (length gs) @ '' records''),
      (replay (map row_params gs) (clear_series m),
       save_parameters (replay (map row_params gs) (clear_series m)) d))"
proof -
  have "import_rows (\<lambda>g. g) gs (clear_series m) = (None, replay (map row_params gs) (clear_series m))"
    using import_rows_good [of "\<lambda>g. g" gs "clear_series m"] assms(2) by simp
  then show ?thesis
    by (simp add: import_bulk_data_def import_body_readers assms(1) replay_def clear_series_def)
qed

lemma import_bulk_data_bad:
  assumes "row_readers rd f m = Inr (good @ bad # rest)" and "list_all row_ok good"
    and "build_params bad param_names = Inl e"
  shows "import_bulk_data rd f (m, d) =
     ((False, ''Import failed: '' @ err_str e),
      (replay (map row_params good) (clear_series m), d))"
proof -
  have "import_rows (\<lambda>g. g) (good @ bad # rest) (clear_series m) =
          (Some e, replay (map row_params good) (clear_series m))"
    using import_rows_bad [of "\<lambda>g. g" good bad e rest "clear_series m"] assms(2,3) by simp
  then show ?thesis
    by (simp add: import_bulk_data_def import_body_readers assms(1))
qed

lemma import_bulk_data_unreadable:
  assumes "row_readers rd f m = Inl e"
  shows "import_bulk_data rd f (m, d) =
     ((False, ''Import failed: '' @ err_str e), (clear_series m, d))"
  by (simp add: import_bulk_data_def import_body_readers assms)




subsection \<open>The confirmation loop\<close>

lemma dict_set_map:
  "k \<in> set (map fst c) \<Longrightarrow> distinct (map fst c) \<Longrightarrow>
   dict_set c k v = map (\<lambda>(k', old). (k', if k' = k then v else old)) c"
proof (induction c)
  case Nil
  then show ?case by simp
next
  case (Cons p c)
  obtain k' v' where p: "p = (k', v')" by (cases p)
  show ?case
  proof (cases "k' = k")
    case True
    with Cons.prems p have "k \<notin> set (map fst c)" by simp
    then have "map (\<lambda>(k', old). (k', if k' = k then v else old)) c = c"
      by (induction c) auto
    with True p show ?thesis by simp
  next
    case False
    with Cons.prems p have "k \<in> set (map fst c)" "distinct (map fst c)" by auto
    with Cons.IH False p show ?thesis by simp
  qed
qed

lemma dict_set_keys: "k \<in> set (map fst c) \<Longrightarrow> map fst (dict_set c k v) = map fst c"
  by (induction c) force+

lemma map_of_dict_set: "map_of (dict_set c k v) k' = (if k' = k then Some v else map_of c k')"
  by (induction c) auto

lemma differs_dict_set:
  "k' \<noteq> k \<Longrightarrow> differs (dict_set c k v) pend k' = differs c pend k'"
  by (simp add: differs_def map_of_dict_set)

lemma log_line_dict_set:
  "k' \<noteq> k \<Longrightarrow> log_line fmt (dict_set c k v) pend k' = log_line fmt c pend k'"
  by (simp add: log_line_def map_of_dict_set)

lemma commit_step:
  assumes "distinct (map fst c)" "k \<in> set (map fst c)" "k \<notin> set ks" "map_of pend k = Some new_val"
  shows "commit (dict_set c k new_val) pend ks = commit c pend (k # ks)"
  unfolding commit_def dict_set_map [OF assms(2,1)]
  using assms(3,4) by (auto simp: case_prod_beta)

lemma confirm_loop_commit:
  assumes "distinct (map fst c)" "distinct ks" "set ks \<subseteq> set (map fst c)"
    "set ks \<subseteq> set (map fst pend)"
  shows "confirm_loop fmt ks pend (c, change_log, changes_made) =
           (None, commit c pend (filter (differs c pend) ks),
            change_log @ map (log_line fmt c pend) (filter (differs c pend) ks),
            changes_made \<or> filter (differs c pend) ks \<noteq> [])"
  using assms
proof (induction ks arbitrary: c change_log changes_made)
  case Nil
  have "map (\<lambda>(k, old_val). (k, old_val)) c = c" by (induction c) auto
  then show ?case by (simp add: commit_def)
next
  case (Cons k ks)
  from Cons.prems obtain old_val where old: "map_of c k = Some old_val"
    by (cases "map_of c k") (auto simp: map_of_eq_None_iff)
  from Cons.prems obtain new_val where new: "map_of pend k = Some new_val"
    by (cases "map_of pend k") (auto simp: map_of_eq_None_iff)
  from Cons.prems have kc: "k \<in> set (map fst c)" and kks: "k \<notin> set ks" by auto
  show ?case
  proof (cases "py_eq old_val new_val")
    case True
    then have nd: "\<not> differs c pend k" by (simp add: differs_def old new)
    have "confirm_loop fmt ks pend (c, change_log, changes_made) =
           (None, commit c pend (filter (differs c pend) ks),
            change_log @ map (log_line fmt c pend) (filter (differs c pend) ks),
            changes_made \<or> filter (differs c pend) ks \<noteq> [])"
      using Cons.prems by (intro Cons.IH) auto
    with True nd show ?thesis by (simp add: dict_lookup_def old new)
  next
    case False
    then have d: "differs c pend k" by (simp add: differs_def old new)
    let ?c = "dict_set c k new_val"
    have ne: "\<And>x. x \<in> set ks \<Longrightarrow> x \<noteq> k" using kks by auto
    have f: "filter (differs ?c pend) ks = filter (differs c pend) ks"
      by (intro filter_cong) (simp_all add: differs_dict_set ne)
    have l: "map (log_line fmt ?c pend) (filter (differs c pend) ks) =
             map (log_line fmt c pend) (filter (differs c pend) ks)"
      by (intro map_cong) (simp_all add: log_line_dict_set ne)
    have knot: "k \<notin> set (filter (differs c pend) ks)" using kks by simp
    have c: "commit ?c pend (filter (differs c pend) ks) =
             commit c pend (k # filter (differs c pend) ks)"
      by (rule commit_step [OF Cons.prems(1) kc knot new])
    have "confirm_loop fmt ks pend
            (?c, change_log @ [change_line fmt k old_val new_val], True) =
           (None, commit ?c pend (filter (differs ?c pend) ks),
            (change_log @ [change_line fmt k old_val new_val]) @
              map (log_line fmt ?c pend) (filter (differs ?c pend) ks),
            True \<or> filter (differs ?c pend) ks \<noteq> [])"
      using Cons.prems kc by (intro Cons.IH) (auto simp: dict_set_keys)
    with False d show ?thesis
      by (simp add: dict_lookup_def old new f l c log_line_def)
  qed
qed

lemma param_names_distinct: "distinct param_names"
  by (simp add: param_names_def)

lemma commit_Nil: "commit c pend [] = c"
proof -
  have "map (\<lambda>(k, old_val). (k, old_val)) c = c" by (induction c) auto
  then show ?thesis by (simp add: commit_def)
qed






lemma confirm_loop_model:
  assumes keys: "dict_keys (confirmed_parameters m) = param_names"
    "dict_keys (pending_parameters m) = param_names"
  shows "confirm_loop fmt (dict_keys (confirmed_parameters m)) (pending_parameters m)
           (confirmed_parameters m, [], False) =
         (None, commit (confirmed_parameters m) (pending_parameters m) (changed_keys m),
          map (log_line fmt (confirmed_parameters m) (pending_parameters m)) (changed_keys m),
          changed_keys m \<noteq> [])"
proof -
  have d: "distinct (map fst (confirmed_parameters m))"
    using keys(1) param_names_distinct by (simp add: dict_keys_def)
  have "confirm_loop fmt (map fst (confirmed_parameters m)) (pending_parameters m)
           (confirmed_parameters m, [], False) =
         (None, commit (confirmed_parameters m) (pending_parameters m)
            (filter (differs (confirmed_parameters m) (pending_parameters m))
               (map fst (confirmed_parameters m))),
          [] @ map (log_line fmt (confirmed_parameters m) (pending_parameters m))
            (filter (differs (confirmed_parameters m) (pending_parameters m))
               (map fst (confirmed_parameters m))),
          False \<or> filter (differs (confirmed_parameters m) (pending_parameters m))
               (map fst (confirmed_parameters m)) \<noteq> [])"
    using keys d by (intro confirm_loop_commit) (simp_all add: dict_keys_def)
  then show ?thesis by (simp add: changed_keys_def dict_keys_def)
qed

subsection \<open>The first failure of an import\<close>

lemma first_failure_None: "first_failure gs = None \<Longrightarrow> list_all row_ok gs"
  by (induction gs) (auto simp: row_ok_def split: sum.splits)

lemma first_failure_Some:
  "first_failure gs = Some (e, good) \<Longrightarrow>
   \<exists>bad rest. gs = good @ bad # rest \<and> list_all row_ok good \<and>
     build_params bad param_names = Inl e"
proof (induction gs arbitrary: good)
  case Nil
  then show ?case by simp
next
  case (Cons g gs)
  show ?case
  proof (cases "build_params g param_names")
    case (Inl e')
    with Cons.prems have "e' = e" "good = []" by simp_all
    with Inl show ?thesis by auto
  next
    case (Inr d)
    with Cons.prems obtain good' where g': "first_failure gs = Some (e, good')" "good = g # good'"
      by auto
    from Cons.IH [OF g'(1)] obtain bad rest where
      "gs = good' @ bad # rest" "list_all row_ok good'" "build_params bad param_names = Inl e"
      by blast
    moreover have "row_ok g" by (simp add: row_ok_def Inr)
    ultimately show ?thesis using g'(2) by auto
  qed
qed

subsection \<open>Loading the parameter store\<close>

lemma loaded_Nil: "loaded data [] c = c"
proof -
  have "map (\<lambda>(k, old_val). (k, old_val)) c = c" by (induction c) auto
  then show ?thesis by (simp add: loaded_def)
qed

lemma loaded_keys: "map fst (loaded data ks c) = map fst c"
  by (simp add: loaded_def comp_def case_prod_beta)

lemma loaded_step_present:
  assumes "distinct (map fst c)" "k \<in> set (map fst c)" "k \<notin> set ks" "map_of data k = Some v"
  shows "loaded data ks (dict_set c k v) = loaded data (k # ks) c"
  unfolding loaded_def dict_set_map [OF assms(2,1)]
  using assms(3,4) by (auto simp: case_prod_beta)

lemma loaded_step_absent:
  assumes "map_of data k = None"
  shows "loaded data ks c = loaded data (k # ks) c"
  unfolding loaded_def using assms by (auto simp: case_prod_beta)

lemma load_loop_dict:
  assumes "distinct ks" "set ks \<subseteq> set (map fst (confirmed_parameters m))"
    "set ks \<subseteq> set (map fst (pending_parameters m))"
    "distinct (map fst (confirmed_parameters m))" "distinct (map fst (pending_parameters m))"
  shows "load_loop (PDict data) ks m =
     (None, m\<lparr> confirmed_parameters := loaded data ks (confirmed_parameters m),
               pending_parameters := loaded data ks (pending_parameters m) \<rparr>)"
  using assms
proof (induction ks arbitrary: m)
  case Nil
  then show ?case by (simp add: loaded_Nil)
next
  case (Cons k ks)
  from Cons.prems have kc: "k \<in> set (map fst (confirmed_parameters m))"
    and kp: "k \<in> set (map fst (pending_parameters m))" and kks: "k \<notin> set ks" by auto
  show ?case
  proof (cases "map_of data k")
    case None
    then have notin: "k \<notin> set (map fst data)" by (simp add: map_of_eq_None_iff)
    have "load_loop (PDict data) ks m =
     (None, m\<lparr> confirmed_parameters := loaded data ks (confirmed_parameters m),
               pending_parameters := loaded data ks (pending_parameters m) \<rparr>)"
      using Cons.prems by (intro Cons.IH) auto
    with notin show ?thesis
      by (simp add: loaded_step_absent [OF None, symmetric])
  next
    case (Some v)
    then have "k \<in> set (map fst data)"
      by (metis map_of_eq_None_iff option.distinct(1) set_map)
    then have isin: "k \<in> fst ` set data" by simp
    let ?m = "m\<lparr> confirmed_parameters := dict_set (confirmed_parameters m) k v,
                  pending_parameters := dict_set (pending_parameters m) k v \<rparr>"
    have "load_loop (PDict data) ks ?m =
     (None, ?m\<lparr> confirmed_parameters := loaded data ks (confirmed_parameters ?m),
               pending_parameters := loaded data ks (pending_parameters ?m) \<rparr>)"
      using Cons.prems kc kp by (intro Cons.IH) (auto simp: dict_set_keys)
    then show ?thesis
      using isin
      by (simp add: dict_lookup_def Some
          loaded_step_present [OF Cons.prems(4) kc kks Some]
          loaded_step_present [OF Cons.prems(5) kp kks Some])
  qed
qed

lemma load_loop_not_dict:
  "\<forall>x. data \<noteq> PDict x \<Longrightarrow> snd (load_loop data ks m) = m"
proof (induction ks)
  case Nil
  then show ?case by simp
next
  case (Cons k ks)
  then show ?case by (cases data) (auto split: sum.splits bool.splits)
qed

lemma new_model_dict:
  assumes "store d = Parsed (PDict data)"
  shows "new_model d =
     init_model\<lparr> confirmed_parameters :=
         map (\<lambda>k. (k, case map_of data k of None \<Rightarrow> PInt 50 | Some v \<Rightarrow> v)) param_names,
       pending_parameters :=
         map (\<lambda>k. (k, case map_of data k of None \<Rightarrow> PInt 50 | Some v \<Rightarrow> v)) param_names \<rparr>"
proof -
  have keys: "map fst (confirmed_parameters init_model) = param_names"
    "map fst (pending_parameters init_model) = param_names"
    by (simp_all add: init_model_def comp_def)
  have "load_loop (PDict data) param_names init_model =
     (None, init_model\<lparr> confirmed_parameters := loaded data param_names (confirmed_parameters init_model),
               pending_parameters := loaded data param_names (pending_parameters init_model) \<rparr>)"
    using param_names_distinct by (intro load_loop_dict) (simp_all add: keys)
  moreover have "loaded data param_names (map (\<lambda>k. (k, PInt 50)) param_names) =
      map (\<lambda>k. (k, case map_of data k of None \<Rightarrow> PInt 50 | Some v \<Rightarrow> v)) param_names"
    by (simp add: loaded_def comp_def)
  ultimately show ?thesis
    by (simp add: new_model_def load_parameters_def assms dict_keys_def keys)
       (simp add: init_model_def)
qed

lemma map_of_keys_self:
  "distinct (map fst c) \<Longrightarrow> map (\<lambda>k. (k, case map_of c k of None \<Rightarrow> w | Some v \<Rightarrow> v)) (map fst c) = c"
proof (induction c)
  case Nil
  then show ?case by simp
next
  case (Cons p c)
  obtain k v where p: "p = (k, v)" by (cases p)
  from Cons.prems p have notin: "k \<notin> set (map fst c)" and d: "distinct (map fst c)" by auto
  have "map (\<lambda>k'. (k', case map_of (p # c) k' of None \<Rightarrow> w | Some v \<Rightarrow> v)) (map fst c) =
        map (\<lambda>k'. (k', case map_of c k' of None \<Rightarrow> w | Some v \<Rightarrow> v)) (map fst c)"
    using notin p by (intro map_cong) auto
  with Cons.IH [OF d] p show ?case by simp
qed

subsection \<open>Operations keep the parameter sets\<close>






lemma import_bulk_data_model:
  "fst (snd (import_bulk_data rd f (m, d))) =
     (case row_readers rd f m of
        Inl e \<Rightarrow> clear_series m
      | Inr gs \<Rightarrow> snd (import_rows (\<lambda>g. g) gs (clear_series m)))"
  by (simp add: import_bulk_data_def import_body_readers split: sum.splits prod.splits option.splits)




lemma new_model_keys_ok: "keys_ok (new_model d)"
proof (cases "store d")
  case (Parsed data)
  show ?thesis
  proof (cases "\<exists>x. data = PDict x")
    case True
    then obtain x where "data = PDict x" by blast
    with Parsed show ?thesis
      by (simp add: new_model_dict keys_ok_def dict_keys_def comp_def)
  next
    case False
    with Parsed have "new_model d = init_model"
      by (simp add: new_model_def load_parameters_def load_loop_not_dict)
    then show ?thesis
      by (simp add: keys_ok_def init_model_def dict_keys_def comp_def)
  qed
qed (simp_all add: new_model_def load_parameters_def keys_ok_def init_model_def dict_keys_def
      comp_def)

subsection \<open>The least-squares slope and the series\<close>












lemma series_ok_params [simp]:
  "series_ok (m\<lparr> confirmed_parameters := c \<rparr>) = series_ok m"
  "series_ok (m\<lparr> pending_parameters := p \<rparr>) = series_ok m"
  by (simp_all add: series_ok_def)

lemma series_ok_trend:
  "series_ok m \<Longrightarrow> length (time_steps m) = length (performance_history m) \<and> distinct (time_steps m)"
  by (simp add: series_ok_def distinct_map inj_on_def)

lemma calculate_performance_series:
  "series_ok m \<Longrightarrow> series_ok (snd (calculate_performance m))"
  by (simp add: calculate_performance_def series_ok_def Let_def split: sum.splits)

lemma clear_series_ok: "series_ok (clear_series m)"
  by (simp add: clear_series_def series_ok_def)

lemma import_rows_series:
  "series_ok m \<Longrightarrow> series_ok (snd (import_rows get rows m))"
proof (induction rows arbitrary: m)
  case Nil
  then show ?case by simp
next
  case (Cons r rows)
  show ?case
  proof (cases "build_params (get r) param_names")
    case (Inl e)
    with Cons.prems show ?thesis by simp
  next
    case (Inr d)
    let ?m1 = "m\<lparr> confirmed_parameters := d \<rparr>"
    obtain res m2 where calc: "calculate_performance ?m1 = (res, m2)"
      by (cases "calculate_performance ?m1")
    have "series_ok (snd (calculate_performance ?m1))"
      using Cons.prems by (intro calculate_performance_series) simp
    with calc have m2: "series_ok m2" by simp
    from Cons.IH [OF m2] m2 show ?thesis
      by (cases res) (simp_all add: Inr calc)
  qed
qed

lemma confirm_parameters_series:
  assumes "series_ok m"
  shows "series_ok (fst (snd (confirm_parameters fmt (m, d))))"
proof -
  obtain err conf change_log changes_made where
    loop: "confirm_loop fmt (dict_keys (confirmed_parameters m)) (pending_parameters m)
             (confirmed_parameters m, [], False) = (err, conf, change_log, changes_made)"
    by (metis prod_cases4)
  let ?m1 = "m\<lparr> confirmed_parameters := conf \<rparr>"
  obtain res m2 where calc: "calculate_performance ?m1 = (res, m2)"
    by (cases "calculate_performance ?m1")
  have "series_ok (snd (calculate_performance ?m1))"
    using assms by (intro calculate_performance_series) simp
  with calc have "series_ok m2" by simp
  with assms show ?thesis
    by (cases err; cases res) (auto simp: confirm_parameters_def loop calc Let_def)
qed

lemma apply_operation_series:
  assumes "series_ok (fst md)"
  shows "series_ok (fst (apply_operation fmt op md))"
proof (cases op)
  case (Update_pending params)
  with assms show ?thesis by (simp add: update_pending_parameters_def)
next
  case Confirm
  with confirm_parameters_series [OF assms, of fmt "snd md"] show ?thesis by simp
next
  case Calculate
  with calculate_performance_series [OF assms] show ?thesis by simp
next
  case (Import_bulk rd f)
  have "series_ok (fst (snd (import_bulk_data rd f (fst md, snd md))))"
    unfolding import_bulk_data_model
    using import_rows_series [OF clear_series_ok, of "\<lambda>g. g" _ "fst md"] clear_series_ok [of "fst md"]
    by (simp split: sum.splits)
  with Import_bulk show ?thesis by simp
qed

lemma load_loop_series: "series_ok m \<Longrightarrow> series_ok (snd (load_loop data ks m))"
  by (induction ks arbitrary: m) (auto split: sum.splits bool.splits)

lemma new_model_series: "series_ok (new_model d)"
proof -
  have "series_ok init_model" by (simp add: init_model_def series_ok_def)
  then show ?thesis
    by (auto simp: new_model_def load_parameters_def load_loop_series split: store_file.splits)
qed

lemma run_operations_series:
  "series_ok (fst md) \<Longrightarrow> series_ok (fst (run_operations fmt ops md))"
  by (induction ops arbitrary: md) (simp_all add: apply_operation_series)

lemma reachable_series:
  "length (time_steps (fst (run_operations fmt ops (new_model d, d)))) =
     length (performance_history (fst (run_operations fmt ops (new_model d, d)))) \<and>
   distinct (time_steps (fst (run_operations fmt ops (new_model d, d))))"
  using run_operations_series [of "(new_model d, d)" fmt ops] new_model_series [of d]
  by (simp add: series_ok_trend)

section \<open>Properties of the model\<close>








text \<open>
  C4. When pending equals confirmed on all five keys, \<open>confirm_parameters\<close> returns
  \<^verbatim>\<open>None\<close> and changes nothing: no score point, the same time counter, no write to the
  store, both parameter sets as they were.
\<close>

theorem confirm_parameters_no_changes:
  assumes keys: "dict_keys (confirmed_parameters m) = param_names"
      "dict_keys (pending_parameters m) = param_names"
    and same: "\<forall>k\<in>set param_names.
      py_eq (the (map_of (confirmed_parameters m) k)) (the (map_of (pending_parameters m) k))"
  shows "confirm_parameters fmt (m, d) = (Inr None, (m, d))"
proof -
  have "\<And>k. k \<in> set param_names \<Longrightarrow>
          \<not> differs (confirmed_parameters m) (pending_parameters m) k"
  proof -
    fix k assume k: "k \<in> set param_names"
    with same have "py_eq (the (map_of (confirmed_parameters m) k))
        (the (map_of (pending_parameters m) k))" by simp
    then show "\<not> differs (confirmed_parameters m) (pending_parameters m) k"
      by (auto simp: differs_def split: option.splits)
  qed
  then have "changed_keys m = []"
    using keys(1) by (simp add: changed_keys_def filter_empty_conv)
  then show ?thesis
    by (simp add: confirm_parameters_def confirm_loop_model [OF keys] commit_Nil Let_def)
qed

theorem confirm_parameters_no_changes_witness:
  "confirm_parameters show_param (init_model, \<lparr> store = Absent, write_outcome = Written \<rparr>) =
     (Inr None, (init_model, \<lparr> store = Absent, write_outcome = Written \<rparr>))"
  using confirm_parameters_no_changes
    [of init_model show_param "\<lparr> store = Absent, write_outcome = Written \<rparr>"]
  by (simp add: init_model_def param_names_def dict_keys_def)




text \<open>
  C6. \<open>predict_pass_fail\<close> depends only on the most recent score: with an empty history
  it returns "No data"; otherwise "High pass chance" iff the last score is at least 70,
  "Likely to pass" iff it is in \<open>[60, 70)\<close>, "Borderline" iff in \<open>[50, 60)\<close>,
  "Risk of failing" iff in \<open>[40, 50)\<close> and "High fail chance" iff it is below 40.
\<close>

theorem predict_pass_fail_bands:
  "(performance_history m = [] \<longrightarrow> fst (predict_pass_fail m) = ''No data'') \<and>
   (performance_history m \<noteq> [] \<longrightarrow>
      (fst (predict_pass_fail m) = ''High pass chance'' \<longleftrightarrow> 70 \<le> last (performance_history m)) \<and>
      (fst (predict_pass_fail m) = ''Likely to pass'' \<longleftrightarrow>
         60 \<le> last (performance_history m) \<and> last (performance_history m) < 70) \<and>
      (fst (predict_pass_fail m) = ''Borderline'' \<longleftrightarrow>
         50 \<le> last (performance_history m) \<and> last (performance_history m) < 60) \<and>
      (fst (predict_pass_fail m) = ''Risk of failing'' \<longleftrightarrow>
         40 \<le> last (performance_history m) \<and> last (performance_history m) < 50) \<and>
      (fst (predict_pass_fail m) = ''High fail chance'' \<longleftrightarrow> last (performance_history m) < 40) \<and>
      (performance_history m' \<noteq> [] \<and> last (performance_history m') = last (performance_history m)
         \<longrightarrow> predict_pass_fail m' = predict_pass_fail m))"
  by (simp add: predict_pass_fail_def Let_def)

theorem predict_pass_fail_bands_witness:
  "fst (predict_pass_fail (init_model\<lparr> performance_history := [45, 70] \<rparr>)) = ''High pass chance'' \<and>
   fst (predict_pass_fail (init_model\<lparr> performance_history := [69999 / 1000] \<rparr>)) = ''Likely to pass'' \<and>
   fst (predict_pass_fail (init_model\<lparr> performance_history := [50] \<rparr>)) = ''Borderline'' \<and>
   fst (predict_pass_fail (init_model\<lparr> performance_history := [40] \<rparr>)) = ''Risk of failing'' \<and>
   fst (predict_pass_fail (init_model\<lparr> performance_history := [39999 / 1000] \<rparr>)) = ''High fail chance'' \<and>
   fst (predict_pass_fail init_model) = ''No data''"
  using predict_pass_fail_bands [of "init_model\<lparr> performance_history := [45, 70] \<rparr>" init_model]
    predict_pass_fail_bands [of "init_model\<lparr> performance_history := [69999 / 1000] \<rparr>" init_model]
    predict_pass_fail_bands [of "init_model\<lparr> performance_history := [50] \<rparr>" init_model]
    predict_pass_fail_bands [of "init_model\<lparr> performance_history := [40] \<rparr>" init_model]
    predict_pass_fail_bands [of "init_model\<lparr> performance_history := [39999 / 1000] \<rparr>" init_model]
    predict_pass_fail_bands [of init_model init_model]
  by (simp add: init_model_def)



text \<open>
  C8. \<open>import_bulk_data\<close> never raises: every failure --- the file cannot be read or
  parsed, or a row cannot be turned into parameters --- becomes the result
  \<open>(False, "Import failed: ...")\<close>, and the object keeps what was done before the
  failure: the series was cleared and holds one point for each row before the failing
  one, the confirmed parameters are those of the last such row, and nothing is rolled
  back or saved. \<open>import_failure\<close> is the first failure of an input, with the rows before
  it; where there is none the call reports success.
\<close>

theorem import_bulk_data_failure:
  "(import_failure rd f m = Some (e, good) \<longrightarrow>
      import_bulk_data rd f (m, d) =
        ((False, ''Import failed: '' @ err_str e),
         (m\<lparr> confirmed_parameters :=
                (if good = [] then confirmed_parameters m else row_params (last good)),
             performance_history := map (\<lambda>g. params_score (row_params g)) good,
             time_steps := map int [0..<length good],
             current_time := int (length good) \<rparr>,
          d))) \<and>
   (import_failure rd f m = None \<longrightarrow> fst (fst (import_bulk_data rd f (m, d))))"
proof (intro conjI impI)
  assume fail: "import_failure rd f m = Some (e, good)"
  show "import_bulk_data rd f (m, d) =
        ((False, ''Import failed: '' @ err_str e),
         (m\<lparr> confirmed_parameters :=
                (if good = [] then confirmed_parameters m else row_params (last good)),
             performance_history := map (\<lambda>g. params_score (row_params g)) good,
             time_steps := map int [0..<length good],
             current_time := int (length good) \<rparr>,
          d))"
  proof (cases "row_readers rd f m")
    case (Inl e')
    with fail have "e' = e" "good = []" by (simp_all add: import_failure_def)
    with import_bulk_data_unreadable [OF Inl, of d] show ?thesis
      by (simp add: clear_series_def)
  next
    case (Inr gs)
    with fail have "first_failure gs = Some (e, good)" by (simp add: import_failure_def)
    from first_failure_Some [OF this] obtain bad rest where
      gs: "gs = good @ bad # rest" and good: "list_all row_ok good"
      and bad: "build_params bad param_names = Inl e"
      by blast
    from Inr gs have rr: "row_readers rd f m = Inr (good @ bad # rest)" by simp
    show ?thesis
      using import_bulk_data_bad [OF rr good bad, of d]
      by (simp add: replay_clear last_map comp_def)
  qed
next
  assume ok: "import_failure rd f m = None"
  then obtain gs where gs: "row_readers rd f m = Inr gs" "first_failure gs = None"
    by (cases "row_readers rd f m") (simp_all add: import_failure_def)
  from import_bulk_data_good [OF gs(1) first_failure_None [OF gs(2)], of d]
  show "fst (fst (import_bulk_data rd f (m, d)))" by simp
qed

theorem import_bulk_data_failure_witness:
  "import_bulk_data
     \<lparr> read_csv = (\<lambda>p. Inl (LibraryError ''No such file'')),
       json_load = (\<lambda>p. Inr (PList [PDict [], PDict [(''teaching'', PStr ''high'')], PDict []])) \<rparr>
     ''rows.json''
     (init_model\<lparr> performance_history := [80, 82], time_steps := [0, 1], current_time := 2 \<rparr>,
      \<lparr> store = Absent, write_outcome = Written \<rparr>) =
   ((False, ''Import failed: '' @ quoted ''>'' @ '' not supported between instances of '' @
             quoted ''int'' @ '' and '' @ quoted ''str''),
    (init_model\<lparr> performance_history := [45], time_steps := [0], current_time := 1 \<rparr>,
     \<lparr> store = Absent, write_outcome = Written \<rparr>))"
  using import_bulk_data_failure
    [where rd = "\<lparr> read_csv = (\<lambda>p. Inl (LibraryError ''No such file'')),
       json_load = (\<lambda>p. Inr (PList [PDict [], PDict [(''teaching'', PStr ''high'')], PDict []])) \<rparr>"
       and f = "''rows.json''"
       and m = "init_model\<lparr> performance_history := [80, 82], time_steps := [0, 1], current_time := 2 \<rparr>"
       and e = "TypeError (quoted ''>'' @ '' not supported between instances of '' @
             quoted ''int'' @ '' and '' @ quoted ''str'')"
       and good = "[entry_get (PDict [])]"
       and d = "\<lparr> store = Absent, write_outcome = Written \<rparr>"]
  by (simp add: import_failure_def row_readers_def endswith_def param_names_def clamp_param_def
        row_params_def params_score_def field_num_def init_model_def)

text \<open>
  C9. Saving the confirmed parameters with \<open>save_parameters\<close> and then constructing a
  fresh model, which runs \<open>load_parameters\<close>, reproduces the same confirmed map (the
  write going through). On startup the recognised keys present in the store are read and
  the missing ones keep the default 50; an absent, unreadable or malformed store leaves
  the defaults.
\<close>

theorem save_load_round_trip:
  "(dict_keys (confirmed_parameters m) = param_names \<and> write_outcome d = Written \<longrightarrow>
      confirmed_parameters (new_model (save_parameters m d)) = confirmed_parameters m) \<and>
   (store d = Parsed (PDict data) \<longrightarrow>
      confirmed_parameters (new_model d) =
        map (\<lambda>k. (k, case map_of data k of None \<Rightarrow> PInt 50 | Some v \<Rightarrow> v)) param_names) \<and>
   (store d = Absent \<or> store d = Unreadable \<or> (store d = Parsed other \<and> (\<forall>x. other \<noteq> PDict x)) \<longrightarrow>
      new_model d = init_model)"
proof (intro conjI impI)
  assume a: "dict_keys (confirmed_parameters m) = param_names \<and> write_outcome d = Written"
  then have st: "store (save_parameters m d) = Parsed (PDict (confirmed_parameters m))"
    by (simp add: save_parameters_def)
  have dist: "distinct (map fst (confirmed_parameters m))"
    using a param_names_distinct by (simp add: dict_keys_def)
  have keys: "map fst (confirmed_parameters m) = param_names"
    using a by (simp add: dict_keys_def)
  have "map (\<lambda>k. (k, case map_of (confirmed_parameters m) k of None \<Rightarrow> PInt 50 | Some v \<Rightarrow> v))
          param_names = confirmed_parameters m"
    using map_of_keys_self [OF dist, of "PInt 50"] unfolding keys .
  then show "confirmed_parameters (new_model (save_parameters m d)) = confirmed_parameters m"
    by (simp add: new_model_dict [OF st])
next
  assume "store d = Parsed (PDict data)"
  then show "confirmed_parameters (new_model d) =
        map (\<lambda>k. (k, case map_of data k of None \<Rightarrow> PInt 50 | Some v \<Rightarrow> v)) param_names"
    by (simp add: new_model_dict)
next
  assume "store d = Absent \<or> store d = Unreadable \<or> (store d = Parsed other \<and> (\<forall>x. other \<noteq> PDict x))"
  then show "new_model d = init_model"
    by (auto simp: new_model_def load_parameters_def load_loop_not_dict)
qed

theorem save_load_round_trip_witness:
  "confirmed_parameters (new_model (save_parameters
       (init_model\<lparr> confirmed_parameters :=
          [(''preparedness'', PInt 80), (''teaching'', PInt 70), (''materials'', PInt 60),
           (''participation'', PFloat (91 / 2)), (''difficulty'', PInt 10)] \<rparr>)
       \<lparr> store = Unreadable, write_outcome = Written \<rparr>)) =
     [(''preparedness'', PInt 80), (''teaching'', PInt 70), (''materials'', PInt 60),
      (''participation'', PFloat (91 / 2)), (''difficulty'', PInt 10)] \<and>
   confirmed_parameters (new_model
       \<lparr> store = Parsed (PDict [(''teaching'', PInt 70), (''colour'', PStr ''red'')]),
         write_outcome = Written \<rparr>) =
     [(''preparedness'', PInt 50), (''teaching'', PInt 70), (''materials'', PInt 50),
      (''participation'', PInt 50), (''difficulty'', PInt 50)] \<and>
   new_model \<lparr> store = Unreadable, write_outcome = Written \<rparr> = init_model \<and>
   new_model \<lparr> store = Parsed (PList [PStr ''teaching'']), write_outcome = Written \<rparr> = init_model"
  using save_load_round_trip
      [of "init_model\<lparr> confirmed_parameters :=
          [(''preparedness'', PInt 80), (''teaching'', PInt 70), (''materials'', PInt 60),
           (''participation'', PFloat (91 / 2)), (''difficulty'', PInt 10)] \<rparr>"
        "\<lparr> store = Unreadable, write_outcome = Written \<rparr>" "[]" PNone]
    save_load_round_trip
      [of init_model
        "\<lparr> store = Parsed (PDict [(''teaching'', PInt 70), (''colour'', PStr ''red'')]),
           write_outcome = Written \<rparr>"
        "[(''teaching'', PInt 70), (''colour'', PStr ''red'')]" PNone]
    save_load_round_trip
      [of init_model
        "\<lparr> store = Parsed (PList [PStr ''teaching'']), write_outcome = Written \<rparr>"
        "[]" "PList [PStr ''teaching'']"]
  by (simp add: dict_keys_def param_names_def)

text \<open>
  C10. For a file path that ends in neither ".csv" nor ".json", \<open>import_bulk_data\<close>
  still clears the series, reads no file (the result does not depend on the reader),
  saves the unchanged confirmed parameters and returns success with the message
  "Successfully imported 0 records".
\<close>

theorem import_bulk_data_other_suffix:
  assumes "\<not> endswith f ''.csv''" and "\<not> endswith f ''.json''"
  shows "import_bulk_data rd f (m, d) =
     ((True, ''Successfully imported 0 records''),
      (m\<lparr> performance_history := [], time_steps := [], current_time := 0 \<rparr>,
       (case write_outcome d of
          Written \<Rightarrow> d\<lparr> store := Parsed (PDict (confirmed_parameters m)) \<rparr>
        | Truncated \<Rightarrow> d\<lparr> store := Unreadable \<rparr>
        | Refused \<Rightarrow> d)))"
  using assms
  by (simp add: import_bulk_data_def import_body_def clear_series_def save_parameters_def
      str_nat.simps Let_def split: write_result.splits)

theorem import_bulk_data_other_suffix_witness:
  "import_bulk_data
     \<lparr> read_csv = (\<lambda>p. Inl (LibraryError ''No such file'')),
       json_load = (\<lambda>p. Inl (LibraryError ''No such file'')) \<rparr>
     ''notes.txt''
     (init_model\<lparr> performance_history := [80, 82], time_steps := [0, 1], current_time := 2 \<rparr>,
      \<lparr> store = Absent, write_outcome = Written \<rparr>) =
   ((True, ''Successfully imported 0 records''),
    (init_model, \<lparr> store = Parsed (PDict (confirmed_parameters init_model)), write_outcome = Written \<rparr>))"
  using import_bulk_data_other_suffix [of "''notes.txt''"
      "\<lparr> read_csv = (\<lambda>p. Inl (LibraryError ''No such file'')),
         json_load = (\<lambda>p. Inl (LibraryError ''No such file'')) \<rparr>"
      "init_model\<lparr> performance_history := [80, 82], time_steps := [0, 1], current_time := 2 \<rparr>"
      "\<lparr> store = Absent, write_outcome = Written \<rparr>"]
  by (simp add: endswith_def init_model_def)

end
